theory Spec2Isabelle
  imports Complex_Main
begin

section \<open>Numbers\<close>

text \<open>
  The scripts compute with JavaScript numbers. A finite number is modelled by the rational
  it denotes (arithmetic is exact in the model); the three non-finite values are kept as
  constructors, because the source tests for them with \<^verbatim>\<open>Number.isFinite\<close>.
  The development follows the TypeScript variant of the pair-order script (the one with the
  realtime feed and the repeat mode); the plain JavaScript variant has the same monitoring
  loop.
\<close>

datatype jsnum = Fin rat | PosInf | NegInf | NaN

fun isFinite :: "jsnum \<Rightarrow> bool" where
  "isFinite (Fin _) = True"
| "isFinite _ = False"

text \<open>The comparisons \<^verbatim>\<open><\<close> and \<^verbatim>\<open><=\<close> of JavaScript: every comparison with NaN is false.\<close>

fun js_less :: "jsnum \<Rightarrow> jsnum \<Rightarrow> bool" where
  "js_less NaN _ = False"
| "js_less _ NaN = False"
| "js_less (Fin a) (Fin b) = (a < b)"
| "js_less PosInf _ = False"
| "js_less _ PosInf = True"
| "js_less _ NegInf = False"
| "js_less NegInf _ = True"

definition js_le :: "jsnum \<Rightarrow> jsnum \<Rightarrow> bool" where
  "js_le a b = (js_less a b \<or> (a = b \<and> a \<noteq> NaN))"

definition eps :: rat where
  "eps = 1 / 10 ^ 9"

text \<open>
  \<^verbatim>\<open>Number(x.toFixed(d))\<close> on a finite number: the sign is split off and the magnitude is
  rounded to the nearest multiple of \<open>10\<^sup>-\<^sup>d\<close>, the larger one on a tie.
\<close>

definition toFixed :: "nat \<Rightarrow> rat \<Rightarrow> rat" where
  "toFixed d x =
     (if x < 0 then - (of_int \<lfloor>(- x) * 10 ^ d + 1 / 2\<rfloor> / 10 ^ d)
      else of_int \<lfloor>x * 10 ^ d + 1 / 2\<rfloor> / 10 ^ d)"

section \<open>Pricing and sizing\<close>

text \<open>
  \<^verbatim>\<open>roundDownToTick(x, tickSize)\<close>; the tick is taken after the conversion
  \<^verbatim>\<open>typeof tickSize === "string" ? Number(tickSize) : tickSize\<close>.
\<close>

definition roundDownToTick :: "rat \<Rightarrow> jsnum \<Rightarrow> rat" where
  "roundDownToTick x tickSize =
     (case tickSize of
        Fin t \<Rightarrow>
          if t \<le> 0 then x
          else (let inv = 1 / t;
                    snapped = of_int \<lfloor>x * inv + 1 / 10 ^ 9\<rfloor> / inv
                in toFixed 8 snapped)
      | _ \<Rightarrow> x)"

datatype error =
    InvalidPrice | InvalidDurationMin | InvalidPollSec | InvalidPairGraceSec
  | InvalidOnSingleFill | InvalidSignatureType
  | InsufficientEdge
  | InvalidInvestUsd | InvalidSize
  | UnsafeQuote
  | ClientError string
  | InvalidIsoTimestamp | MissingMarketSlug | UnparseableIdentifier

definition computeSizeShares :: "jsnum \<Rightarrow> rat \<Rightarrow> error + rat" where
  "computeSizeShares investUsd p =
     (case investUsd of
        Fin u \<Rightarrow> if u \<le> 0 then Inl InvalidInvestUsd
                 else if p \<le> 0 then Inl InvalidPrice
                 else Inr (toFixed 6 (u / p))
      | _ \<Rightarrow> Inl InvalidInvestUsd)"

section \<open>Configuration and the pre-trade edge check\<close>

text \<open>
  The command line after \<^verbatim>\<open>getArgValue\<close>, \<^verbatim>\<open>Number\<close>, \<^verbatim>\<open>toNum\<close> and \<^verbatim>\<open>toBool\<close>:
  the values the validation block of \<^verbatim>\<open>main\<close> starts from. \<^verbatim>\<open>toNum\<close> only returns
  finite numbers, so those settings are rationals; the ones read with a bare
  \<^verbatim>\<open>Number(...)\<close> may be non-finite.
\<close>

record args =
  argPRICE :: jsnum
  argINVEST_PER_SIDE :: jsnum
  argShares :: "jsnum option"
  argDURATION_MIN :: jsnum
  argStartAt :: "string option"
  argALIGN_15M :: bool
  argALIGN_MARKET_START :: bool
  argREPEAT :: bool
  argPOST_ONLY :: bool
  argPOLL_SEC :: rat
  argPAIR_GRACE_SEC :: rat
  argON_SINGLE_FILL :: string
  argMIN_EDGE :: rat
  argMIN_HEDGE_EDGE :: rat
  argALLOW_WEIRD_QUOTES :: bool
  argUSE_RTDS :: bool
  argMARKET_SLUG :: "string option"
  argSIGNATURE_TYPE :: jsnum
  argUP_TOKEN_ID :: string
  argDOWN_TOKEN_ID :: string

text \<open>The constants of \<^verbatim>\<open>main\<close> once the validation block has passed.\<close>

record config =
  PRICE :: rat
  INVEST_PER_SIDE :: jsnum
  sharesArg :: "jsnum option"
  DURATION_MIN :: rat
  POST_ONLY :: bool
  POLL_SEC :: rat
  PAIR_GRACE_SEC :: rat
  ON_SINGLE_FILL :: string
  MIN_EDGE :: rat
  MIN_HEDGE_EDGE :: rat
  ALLOW_WEIRD_QUOTES :: bool
  USE_RTDS :: bool
  UP_TOKEN_ID :: string
  DOWN_TOKEN_ID :: string

definition pairEdge :: "rat \<Rightarrow> rat" where
  "pairEdge p = 1 - 2 * p"

text \<open>
  The validation block and the pair edge check of \<^verbatim>\<open>main\<close>, in the order of the source:
  each \<^verbatim>\<open>throw\<close> is an \<open>Inl\<close>.
\<close>

definition checkArgs :: "args \<Rightarrow> error + config" where
  "checkArgs a =
     (case argPRICE a of
        Fin p \<Rightarrow>
          if p \<le> 0 \<or> p \<ge> 1 then Inl InvalidPrice
          else (case argDURATION_MIN a of
            Fin dm \<Rightarrow>
              if dm \<le> 0 then Inl InvalidDurationMin
              else if argPOLL_SEC a \<le> 0 then Inl InvalidPollSec
              else if argPAIR_GRACE_SEC a < 0 then Inl InvalidPairGraceSec
              else if argON_SINGLE_FILL a \<notin> set [''wait'', ''cancel'', ''hedge'']
                then Inl InvalidOnSingleFill
              else if argSIGNATURE_TYPE a \<notin> set [Fin 0, Fin 1, Fin 2]
                then Inl InvalidSignatureType
              else if pairEdge p < argMIN_EDGE a then Inl InsufficientEdge
              else Inr \<lparr> PRICE = p,
                         INVEST_PER_SIDE = argINVEST_PER_SIDE a,
                         sharesArg = argShares a,
                         DURATION_MIN = dm,
                         POST_ONLY = argPOST_ONLY a,
                         POLL_SEC = argPOLL_SEC a,
                         PAIR_GRACE_SEC = argPAIR_GRACE_SEC a,
                         ON_SINGLE_FILL = argON_SINGLE_FILL a,
                         MIN_EDGE = argMIN_EDGE a,
                         MIN_HEDGE_EDGE = argMIN_HEDGE_EDGE a,
                         ALLOW_WEIRD_QUOTES = argALLOW_WEIRD_QUOTES a,
                         USE_RTDS = argUSE_RTDS a,
                         UP_TOKEN_ID = argUP_TOKEN_ID a,
                         DOWN_TOKEN_ID = argDOWN_TOKEN_ID a \<rparr>
          | _ \<Rightarrow> Inl InvalidDurationMin)
      | _ \<Rightarrow> Inl InvalidPrice)"

section \<open>The exchange client and what the scripts do to it\<close>

text \<open>
  The client's answers are inputs of the model and its calls are outputs: every function
  below returns the list of the events it causes, in order. Numbers that the source obtains
  with \<^verbatim>\<open>Number(...)\<close> from the client's strings are given already converted.
\<close>

record open_order =
  size_matched :: jsnum
  original_size :: jsnum

record order_book =
  bids :: "(jsnum \<times> jsnum) list"
  asks :: "(jsnum \<times> jsnum) list"

record book_top =
  bestBid :: "jsnum option"
  bestAsk :: "jsnum option"
  bidSize :: "jsnum option"
  askSize :: "jsnum option"

record market =
  mTickSize :: jsnum
  mNegRisk :: bool

datatype Side = BUY | SELL

datatype leg = UP | DOWN

record order_req =
  tokenID :: string
  price :: rat
  shares :: rat
  side :: Side
  tickSize :: jsnum
  negRisk :: bool
  postOnly :: bool

datatype CancelResult = CancelOk | CancelFailed string

datatype call =
    DeriveApiKey
  | GetMarket string
  | GetOrderBook string
  | PostOrder order_req
  | GetOrder string
  | CancelOrder string

datatype logmsg =
    OrderPosted leg string
  | BothLegsFilled rat rat
  | SingleLegFill rat rat
  | GraceElapsed leg rat string
  | CancelUnfilled string CancelResult
  | HedgeSkippedNoAsk
  | HedgeSkippedEdge rat rat
  | Hedging string rat rat
  | HedgePosted string
  | HedgeFailed string
  | CancellingOrders
  | CancelLogged string CancelResult

datatype event = Call call | Sleep rat | Log logmsg

definition emit :: "event list \<Rightarrow> event list \<times> 'a \<Rightarrow> event list \<times> 'a" where
  "emit evs r = (evs @ fst r, snd r)"

definition parseOrderBookTop :: "order_book \<Rightarrow> book_top" where
  "parseOrderBookTop ob =
     \<lparr> bestBid = (case bids ob of [] \<Rightarrow> None | b # _ \<Rightarrow> Some (fst b)),
       bestAsk = (case asks ob of [] \<Rightarrow> None | b # _ \<Rightarrow> Some (fst b)),
       bidSize = (case bids ob of [] \<Rightarrow> None | b # _ \<Rightarrow> Some (snd b)),
       askSize = (case asks ob of [] \<Rightarrow> None | b # _ \<Rightarrow> Some (snd b)) \<rparr>"

text \<open>
  \<^verbatim>\<open>safeGetOrder\<close> turns a throwing \<^verbatim>\<open>getOrder\<close> into \<^verbatim>\<open>null\<close>: its result is an
  \<open>open_order option\<close>, \<open>None\<close> for a failed read.
\<close>

definition parseMatchedShares :: "open_order option \<Rightarrow> rat" where
  "parseMatchedShares order =
     (case order of
        None \<Rightarrow> 0
      | Some ord \<Rightarrow> (case size_matched ord of Fin m \<Rightarrow> m | _ \<Rightarrow> 0))"

definition parseOriginalShares :: "open_order option \<Rightarrow> rat" where
  "parseOriginalShares order =
     (case order of
        None \<Rightarrow> 0
      | Some ord \<Rightarrow> (case original_size ord of Fin s \<Rightarrow> s | _ \<Rightarrow> 0))"

text \<open>\<^verbatim>\<open>x || d\<close> on a finite number \<open>x\<close>: zero is falsy.\<close>

definition orElse :: "rat \<Rightarrow> rat \<Rightarrow> rat" where
  "orElse x d = (if x = 0 then d else x)"

text \<open>\<^verbatim>\<open>x ?? NaN\<close>.\<close>

definition orNaN :: "jsnum option \<Rightarrow> jsnum" where
  "orNaN x = (case x of None \<Rightarrow> NaN | Some v \<Rightarrow> v)"

definition cancelBestEffort :: "string option \<Rightarrow> string \<Rightarrow> event list \<times> CancelResult" where
  "cancelBestEffort resp orderID =
     ([Call (CancelOrder orderID)],
      (case resp of None \<Rightarrow> CancelOk | Some msg \<Rightarrow> CancelFailed msg))"

text \<open>The pre-trade quote check of \<^verbatim>\<open>runOneWindow\<close>.\<close>

definition isWeird :: "jsnum option \<Rightarrow> bool" where
  "isWeird x = (x \<noteq> None \<and> (js_le (orNaN x) (Fin 0) \<or> js_le (Fin 1) (orNaN x)))"

section \<open>The monitoring loop of \<^verbatim>\<open>runOneWindow\<close>\<close>

text \<open>The locals of \<^verbatim>\<open>runOneWindow\<close> that are fixed once both legs are placed.\<close>

record window =
  upTickSize :: jsnum
  downTickSize :: jsnum
  upNegRisk :: bool
  downNegRisk :: bool
  sizeShares :: rat
  upOrderID :: string
  downOrderID :: string
  orderIds :: "string list"
  cancelAtMs :: rat
  rtdClient :: bool

text \<open>
  What the world answers during one pass of the \<^verbatim>\<open>while\<close> loop: the clock readings
  (\<^verbatim>\<open>Date.now()\<close>, in milliseconds), the value of the flag \<^verbatim>\<open>rtdsTriggered\<close> that the
  feed's \<^verbatim>\<open>onMessage\<close> callback sets, and the client's answers. A call that throws
  answers \<open>None\<close> (reads through \<^verbatim>\<open>safeGetOrder\<close>) or \<open>Inl\<close> the message.
\<close>

record cycle =
  nowLoop :: int
  rtdsTriggered :: bool
  upOrderResp :: "open_order option"
  downOrderResp :: "open_order option"
  nowDetect :: int
  nowElapsed :: int
  otherBookResp :: "string + order_book"
  hedgeResp :: "string + string"
  cancelResp :: "string option"

record loop_state =
  firstSingleFillAtMs :: "int option"
  actedOnSingleFill :: bool

record fills =
  upMatched :: rat
  downMatched :: rat
  upOrig :: rat
  downOrig :: rat

definition readFills :: "rat \<Rightarrow> open_order option \<Rightarrow> open_order option \<Rightarrow> fills" where
  "readFills sz upOrder downOrder =
     \<lparr> upMatched = parseMatchedShares upOrder,
       downMatched = parseMatchedShares downOrder,
       upOrig = orElse (parseOriginalShares upOrder) sz,
       downOrig = orElse (parseOriginalShares downOrder) sz \<rparr>"

definition upFull :: "fills \<Rightarrow> bool" where
  "upFull f = (upMatched f + eps \<ge> upOrig f)"

definition downFull :: "fills \<Rightarrow> bool" where
  "downFull f = (downMatched f + eps \<ge> downOrig f)"

definition bothFull :: "fills \<Rightarrow> bool" where
  "bothFull f = (upFull f \<and> downFull f)"

definition upSome :: "fills \<Rightarrow> bool" where
  "upSome f = (upMatched f > eps)"

definition downSome :: "fills \<Rightarrow> bool" where
  "downSome f = (downMatched f > eps)"

definition oneSome :: "fills \<Rightarrow> bool" where
  "oneSome f = ((upSome f \<and> \<not> downSome f) \<or> (\<not> upSome f \<and> downSome f))"

text \<open>
  The hedge branch: the book of the other leg is read without a \<^verbatim>\<open>try\<close>, so a throwing
  \<^verbatim>\<open>getOrderBook\<close> leaves the loop with the error; the submission is inside a
  \<^verbatim>\<open>try\<close> and only logs.
\<close>

definition hedge :: "config \<Rightarrow> string \<Rightarrow> jsnum \<Rightarrow> bool \<Rightarrow> rat \<Rightarrow> cycle \<Rightarrow> event list \<times> error option" where
  "hedge cfg otherToken otherTick otherNegRisk missingShares c =
     (let maxOtherPrice = 1 - PRICE cfg - MIN_HEDGE_EDGE cfg in
      case otherBookResp c of
        Inl msg \<Rightarrow> ([Call (GetOrderBook otherToken)], Some (ClientError msg))
      | Inr otherBook \<Rightarrow>
          (let otherTop = parseOrderBookTop otherBook;
               ask = bestAsk otherTop
           in if \<not> isFinite (orNaN ask) then
                ([Call (GetOrderBook otherToken), Log HedgeSkippedNoAsk], None)
              else if js_less (Fin maxOtherPrice) (orNaN ask) then
                ([Call (GetOrderBook otherToken),
                  Log (HedgeSkippedEdge (case orNaN ask of Fin v \<Rightarrow> v | _ \<Rightarrow> 0) maxOtherPrice)], None)
              else
                (let hedgePrice = roundDownToTick maxOtherPrice otherTick;
                     req = \<lparr> tokenID = otherToken, price = hedgePrice, shares = missingShares,
                             side = BUY, tickSize = otherTick, negRisk = otherNegRisk,
                             postOnly = False \<rparr>
                 in ([Call (GetOrderBook otherToken),
                      Log (Hedging otherToken missingShares hedgePrice),
                      Call (PostOrder req),
                      (case hedgeResp c of
                         Inr oid \<Rightarrow> Log (HedgePosted oid)
                       | Inl msg \<Rightarrow> Log (HedgeFailed msg))], None))))"

text \<open>The body of \<^verbatim>\<open>if (elapsed >= PAIR_GRACE_SEC)\<close>, after the latch has been set.\<close>

definition singleFillAction :: "config \<Rightarrow> window \<Rightarrow> fills \<Rightarrow> cycle \<Rightarrow> event list \<times> error option" where
  "singleFillAction cfg w f c =
     (let filledSide = (if upMatched f > downMatched f then UP else DOWN);
          missingShares = \<bar>upMatched f - downMatched f\<bar>;
          otherToken = (if filledSide = UP then DOWN_TOKEN_ID cfg else UP_TOKEN_ID cfg);
          otherTick = (if filledSide = UP then downTickSize w else upTickSize w);
          otherNegRisk = (if filledSide = UP then downNegRisk w else upNegRisk w);
          announce = [Log (GraceElapsed filledSide missingShares (ON_SINGLE_FILL cfg))]
      in if ON_SINGLE_FILL cfg = ''wait'' then (announce, None)
         else if ON_SINGLE_FILL cfg = ''cancel'' then
           (let unfilledOrderId = (if filledSide = UP then downOrderID w else upOrderID w);
                r = cancelBestEffort (cancelResp c) unfilledOrderId
            in (announce @ fst r @ [Log (CancelUnfilled unfilledOrderId (snd r))], None))
         else if ON_SINGLE_FILL cfg = ''hedge'' then
           emit announce (hedge cfg otherToken otherTick otherNegRisk missingShares c)
         else (announce, None))"

definition initialState :: loop_state where
  "initialState = \<lparr> firstSingleFillAtMs = None, actedOnSingleFill = False \<rparr>"

datatype step = Continue loop_state | Break | Throw error

text \<open>One pass of the loop body from the two \<^verbatim>\<open>safeGetOrder\<close> reads on.\<close>

definition observeAndAct :: "config \<Rightarrow> window \<Rightarrow> loop_state \<Rightarrow> cycle \<Rightarrow> event list \<times> step" where
  "observeAndAct cfg w st c =
     (let f = readFills (sizeShares w) (upOrderResp c) (downOrderResp c);
          reads = [Call (GetOrder (upOrderID w)), Call (GetOrder (downOrderID w))];
          pause = [Sleep (POLL_SEC cfg * 1000)]
      in if bothFull f then
           (reads @ [Log (BothLegsFilled (upMatched f) (downMatched f))], Break)
         else if oneSome f \<and> \<not> actedOnSingleFill st then
           (let first = (case firstSingleFillAtMs st of None \<Rightarrow> nowDetect c | Some t \<Rightarrow> t);
                detect = (case firstSingleFillAtMs st of
                            None \<Rightarrow> [Log (SingleLegFill (upMatched f) (downMatched f))]
                          | Some t \<Rightarrow> []);
                elapsed = of_int (nowElapsed c - first) / 1000
            in if elapsed \<ge> PAIR_GRACE_SEC cfg then
                 (case singleFillAction cfg w f c of
                    (evs, Some e) \<Rightarrow> (reads @ detect @ evs, Throw e)
                  | (evs, None) \<Rightarrow>
                      (reads @ detect @ evs @ pause,
                       Continue \<lparr> firstSingleFillAtMs = Some first, actedOnSingleFill = True \<rparr>))
               else
                 (reads @ detect @ pause,
                  Continue \<lparr> firstSingleFillAtMs = Some first,
                             actedOnSingleFill = actedOnSingleFill st \<rparr>))
         else (reads @ pause, Continue st))"

text \<open>
  The \<^verbatim>\<open>while (Date.now() < cancelAtMs)\<close> loop. The list of cycles is what the world
  supplies; the loop is \<open>Pending\<close> when the list ends before the loop does.
\<close>

datatype loop_end = Exited | Threw error | Pending

fun monitor :: "config \<Rightarrow> window \<Rightarrow> loop_state \<Rightarrow> cycle list \<Rightarrow> event list \<times> loop_end" where
  "monitor cfg w st [] = ([], Pending)"
| "monitor cfg w st (c # cs) =
     (if \<not> (of_int (nowLoop c) < cancelAtMs w) then ([], Exited)
      else if USE_RTDS cfg \<and> rtdClient w \<and> \<not> rtdsTriggered c then
        emit [Sleep (max (POLL_SEC cfg) 3 * 1000)] (monitor cfg w st cs)
      else
        (case observeAndAct cfg w st c of
           (evs, Break) \<Rightarrow> (evs, Exited)
         | (evs, Throw e) \<Rightarrow> (evs, Threw e)
         | (evs, Continue st') \<Rightarrow> emit evs (monitor cfg w st' cs)))"

text \<open>The closing sweep: \<^verbatim>\<open>for (const id of orderIds)\<close>.\<close>

fun cancelSweep :: "(string \<Rightarrow> string option) \<Rightarrow> string list \<Rightarrow> event list" where
  "cancelSweep resp [] = []"
| "cancelSweep resp (oid # ids) =
     (let r = cancelBestEffort (resp oid) oid
      in fst r @ [Log (CancelLogged oid (snd r))] @ cancelSweep resp ids)"

section \<open>Placing the pair: \<^verbatim>\<open>runOneWindow\<close> up to the loop\<close>

text \<open>
  What the world answers while one window is set up and run. \<open>rtdsInit\<close> tells whether
  the realtime client exists after its initialisation; \<open>sweepResp\<close> is the answer of
  \<^verbatim>\<open>cancelOrder\<close> in the closing sweep (\<open>Some\<close> the message when it throws).
\<close>

record window_env =
  apiKeyResp :: "string + unit"
  upMarketResp :: "string + market"
  downMarketResp :: "string + market"
  upBookResp :: "string + order_book"
  downBookResp :: "string + order_book"
  nowBeforeWait :: int
  upPostResp :: "string + string"
  downPostResp :: "string + string"
  nowPlaced :: int
  rtdsInit :: bool
  cycles :: "cycle list"
  sweepResp :: "string \<Rightarrow> string option"

definition request :: "call \<Rightarrow> string + 'a \<Rightarrow> event list \<times> (error + 'a)" where
  "request cl resp =
     ([Call cl], (case resp of Inl msg \<Rightarrow> Inl (ClientError msg) | Inr v \<Rightarrow> Inr v))"

definition andThen ::
  "event list \<times> (error + 'a) \<Rightarrow> ('a \<Rightarrow> event list \<times> (error + 'b)) \<Rightarrow> event list \<times> (error + 'b)" where
  "andThen m k =
     (case m of (evs, Inl e) \<Rightarrow> (evs, Inl e) | (evs, Inr x) \<Rightarrow> emit evs (k x))"

definition chooseSize :: "config \<Rightarrow> error + rat" where
  "chooseSize cfg =
     (case (case sharesArg cfg of
              Some n \<Rightarrow> Inr n
            | None \<Rightarrow> (case computeSizeShares (INVEST_PER_SIDE cfg) (PRICE cfg) of
                         Inl e \<Rightarrow> Inl e | Inr s \<Rightarrow> Inr (Fin s))) of
        Inl e \<Rightarrow> Inl e
      | Inr (Fin s) \<Rightarrow> if s \<le> 0 then Inl InvalidSize else Inr s
      | Inr _ \<Rightarrow> Inl InvalidSize)"

definition quotesRefused :: "config \<Rightarrow> book_top \<Rightarrow> book_top \<Rightarrow> bool" where
  "quotesRefused cfg upTop downTop =
     (\<not> ALLOW_WEIRD_QUOTES cfg \<and>
      (isWeird (bestAsk upTop) \<or> isWeird (bestBid upTop) \<or>
       isWeird (bestAsk downTop) \<or> isWeird (bestBid downTop)))"

definition placePair :: "config \<Rightarrow> window_env \<Rightarrow> int \<Rightarrow> event list \<times> (error + window)" where
  "placePair cfg env windowStartMs =
     andThen (request DeriveApiKey (apiKeyResp env)) (\<lambda>_.
     andThen (request (GetMarket (UP_TOKEN_ID cfg)) (upMarketResp env)) (\<lambda>upMarket.
     andThen (request (GetMarket (DOWN_TOKEN_ID cfg)) (downMarketResp env)) (\<lambda>downMarket.
       let upPrice = roundDownToTick (PRICE cfg) (mTickSize upMarket);
           downPrice = roundDownToTick (PRICE cfg) (mTickSize downMarket)
       in
     andThen ([], chooseSize cfg) (\<lambda>sz.
     andThen (request (GetOrderBook (UP_TOKEN_ID cfg)) (upBookResp env)) (\<lambda>upBook.
     andThen (request (GetOrderBook (DOWN_TOKEN_ID cfg)) (downBookResp env)) (\<lambda>downBook.
       if quotesRefused cfg (parseOrderBookTop upBook) (parseOrderBookTop downBook)
       then ([], Inl UnsafeQuote)
       else
         let delay = windowStartMs - nowBeforeWait env;
             upReq = \<lparr> tokenID = UP_TOKEN_ID cfg, price = upPrice, shares = sz, side = BUY,
                       tickSize = mTickSize upMarket, negRisk = mNegRisk upMarket,
                       postOnly = POST_ONLY cfg \<rparr>;
             downReq = \<lparr> tokenID = DOWN_TOKEN_ID cfg, price = downPrice, shares = sz, side = BUY,
                         tickSize = mTickSize downMarket, negRisk = mNegRisk downMarket,
                         postOnly = POST_ONLY cfg \<rparr>
         in
     emit (if delay > 0 then [Sleep (of_int delay)] else []) (
     andThen (request (PostOrder upReq) (upPostResp env)) (\<lambda>upId.
     emit [Log (OrderPosted UP upId)] (
     andThen (request (PostOrder downReq) (downPostResp env)) (\<lambda>downId.
       ([Log (OrderPosted DOWN downId)],
        Inr \<lparr> upTickSize = mTickSize upMarket,
              downTickSize = mTickSize downMarket,
              upNegRisk = mNegRisk upMarket,
              downNegRisk = mNegRisk downMarket,
              sizeShares = sz,
              upOrderID = upId,
              downOrderID = downId,
              orderIds = [upId, downId],
              cancelAtMs = of_int (nowPlaced env) + DURATION_MIN cfg * 60 * 1000,
              rtdClient = (USE_RTDS cfg \<and> rtdsInit env) \<rparr>)))))))))))"

section \<open>One window, the repeat loop and \<^verbatim>\<open>main\<close>\<close>

datatype outcome = Returned | Failed error | Unfinished

definition runOneWindow :: "config \<Rightarrow> window_env \<Rightarrow> int \<Rightarrow> event list \<times> outcome" where
  "runOneWindow cfg env windowStartMs =
     (case placePair cfg env windowStartMs of
        (evs, Inl e) \<Rightarrow> (evs, Failed e)
      | (evs, Inr w) \<Rightarrow>
          (case monitor cfg w initialState (cycles env) of
             (evs', Exited) \<Rightarrow>
               (evs @ evs' @ [Log CancellingOrders] @ cancelSweep (sweepResp env) (orderIds w),
                Returned)
           | (evs', Threw e) \<Rightarrow> (evs @ evs', Failed e)
           | (evs', Pending) \<Rightarrow> (evs @ evs', Unfinished)))"

text \<open>Window scheduling.\<close>

definition ceilToWindowMs :: "int \<Rightarrow> int \<Rightarrow> int" where
  "ceilToWindowMs nowMs windowMinutes =
     (let windowMs = windowMinutes * 60 * 1000
      in \<lceil>(of_int nowMs :: rat) / of_int windowMs\<rceil> * windowMs)"

fun splitOn :: "char \<Rightarrow> string \<Rightarrow> string list" where
  "splitOn d [] = [[]]"
| "splitOn d (x # xs) =
     (if x = d then [] # splitOn d xs
      else (case splitOn d xs of p # ps \<Rightarrow> (x # p) # ps | [] \<Rightarrow> [[x]]))"

text \<open>
  The world outside the windows: the clock reading of \<^verbatim>\<open>main\<close>, \<^verbatim>\<open>Date.parse\<close>
  (\<open>None\<close> for NaN), \<^verbatim>\<open>Number\<close> on the last part of the slug, and the answers for each
  window in turn.
\<close>

record world =
  nowMain :: int
  dateParse :: "string \<Rightarrow> int option"
  toNumber :: "string \<Rightarrow> jsnum"
  windows :: "window_env list"

definition parseIsoMs :: "world \<Rightarrow> string \<Rightarrow> error + int" where
  "parseIsoMs wld s = (case dateParse wld s of None \<Rightarrow> Inl InvalidIsoTimestamp | Some ms \<Rightarrow> Inr ms)"

definition parseMarketStartFromSlugMs :: "world \<Rightarrow> string \<Rightarrow> error + int" where
  "parseMarketStartFromSlugMs wld marketSlug =
     (let parts = splitOn CHR ''-'' marketSlug;
          sec = toNumber wld (last parts)
      in case sec of
           Fin v \<Rightarrow> if v \<le> 0 then Inl UnparseableIdentifier else Inr \<lfloor>v * 1000\<rfloor>
         | _ \<Rightarrow> Inl UnparseableIdentifier)"

definition truthy :: "string option \<Rightarrow> bool" where
  "truthy s = (s \<noteq> None \<and> s \<noteq> Some [])"

definition firstWindowStart :: "args \<Rightarrow> world \<Rightarrow> error + int" where
  "firstWindowStart a wld =
     (if truthy (argStartAt a) then parseIsoMs wld (the (argStartAt a))
      else if argALIGN_MARKET_START a then
        (if \<not> truthy (argMARKET_SLUG a) then Inl MissingMarketSlug
         else parseMarketStartFromSlugMs wld (the (argMARKET_SLUG a)))
      else if argALIGN_15M a then Inr (ceilToWindowMs (nowMain wld) 15)
      else Inr (nowMain wld))"

text \<open>
  The \<^verbatim>\<open>while (true)\<close> loop of the repeat mode, one window per supplied environment: the
  result lists each window that was started, with the start time it was given. A window
  that throws ends the process; one that is still unfinished is the last of the list.
\<close>

fun repeatWindows :: "config \<Rightarrow> int \<Rightarrow> window_env list \<Rightarrow> (int \<times> event list \<times> outcome) list" where
  "repeatWindows cfg firstWindowStartMs [] = []"
| "repeatWindows cfg firstWindowStartMs (env # envs) =
     (let nextStart = firstWindowStartMs + 15 * 60 * 1000;
          r = runOneWindow cfg env nextStart
      in (nextStart, r) #
         (if snd r = Returned then repeatWindows cfg nextStart envs else []))"

datatype main_end = Done | Fatal error | Running

definition endOf :: "bool \<Rightarrow> (int \<times> event list \<times> outcome) list \<Rightarrow> main_end" where
  "endOf repeating runs =
     (case runs of
        [] \<Rightarrow> Running
      | _ \<Rightarrow> (case snd (snd (last runs)) of
                Failed e \<Rightarrow> Fatal e
              | Unfinished \<Rightarrow> Running
              | Returned \<Rightarrow> if repeating then Running else Done))"

definition main :: "args \<Rightarrow> world \<Rightarrow> (int \<times> event list \<times> outcome) list \<times> main_end" where
  "main a wld =
     (case checkArgs a of
        Inl e \<Rightarrow> ([], Fatal e)
      | Inr cfg \<Rightarrow>
          (case firstWindowStart a wld of
             Inl e \<Rightarrow> ([], Fatal e)
           | Inr firstWindowStartMs \<Rightarrow>
               if \<not> argREPEAT a then
                 (let runs = (case windows wld of
                                [] \<Rightarrow> []
                              | env # _ \<Rightarrow> [(firstWindowStartMs, runOneWindow cfg env firstWindowStartMs)])
                  in (runs, endOf False runs))
               else
                 (let runs = repeatWindows cfg firstWindowStartMs (windows wld)
                  in (runs, endOf True runs))))"

section \<open>Reading the event lists\<close>

text \<open>
  A mitigation action is announced by the log line \<^verbatim>\<open>Grace elapsed. ... Action=...\<close>, which
  the loop prints exactly when it runs the single-fill action; the orders submitted and the
  cancels attempted are the corresponding client calls.
\<close>

fun isMitigation :: "event \<Rightarrow> bool" where
  "isMitigation (Log (GraceElapsed _ _ _)) = True"
| "isMitigation _ = False"

fun isPostOrder :: "event \<Rightarrow> bool" where
  "isPostOrder (Call (PostOrder _)) = True"
| "isPostOrder _ = False"

fun isCancelOrder :: "event \<Rightarrow> bool" where
  "isCancelOrder (Call (CancelOrder _)) = True"
| "isCancelOrder _ = False"

fun cancelledIds :: "event list \<Rightarrow> string list" where
  "cancelledIds [] = []"
| "cancelledIds (Call (CancelOrder oid) # evs) = oid # cancelledIds evs"
| "cancelledIds (_ # evs) = cancelledIds evs"

fun postedOrders :: "event list \<Rightarrow> order_req list" where
  "postedOrders [] = []"
| "postedOrders (Call (PostOrder req) # evs) = req # postedOrders evs"
| "postedOrders (_ # evs) = postedOrders evs"

text \<open>How many single-fill actions the latch still allows.\<close>

definition budget :: "loop_state \<Rightarrow> nat" where
  "budget st = (if actedOnSingleFill st then 0 else 1)"

section \<open>Sample inputs\<close>



definition sampleMarket :: market where
  "sampleMarket = \<lparr> mTickSize = Fin (1 / 100), mNegRisk = False \<rparr>"

definition emptyBook :: order_book where
  "emptyBook = \<lparr> bids = [], asks = [] \<rparr>"

definition bookWithAsk :: "rat \<Rightarrow> order_book" where
  "bookWithAsk q = \<lparr> bids = [], asks = [(Fin q, Fin 100)] \<rparr>"

definition order :: "rat \<Rightarrow> rat \<Rightarrow> open_order" where
  "order m s = \<lparr> size_matched = Fin m, original_size = Fin s \<rparr>"

definition sampleCycle :: cycle where
  "sampleCycle = \<lparr> nowLoop = 1000, rtdsTriggered = False,
     upOrderResp = Some (order 10 10), downOrderResp = Some (order 0 10),
     nowDetect = 1000, nowElapsed = 1000,
     otherBookResp = Inr (bookWithAsk (1 / 2)), hedgeResp = Inr ''H'', cancelResp = None \<rparr>"

definition sampleConfig :: config where
  "sampleConfig = \<lparr> PRICE = 49 / 100, INVEST_PER_SIDE = Fin 5, sharesArg = Some (Fin 10),
     DURATION_MIN = 15, POST_ONLY = True, POLL_SEC = 3, PAIR_GRACE_SEC = 0,
     ON_SINGLE_FILL = ''hedge'', MIN_EDGE = 5 / 1000, MIN_HEDGE_EDGE = 2 / 1000,
     ALLOW_WEIRD_QUOTES = False, USE_RTDS = False,
     UP_TOKEN_ID = ''up'', DOWN_TOKEN_ID = ''down'' \<rparr>"

definition sampleEnv :: window_env where
  "sampleEnv = \<lparr> apiKeyResp = Inr (), upMarketResp = Inr sampleMarket,
     downMarketResp = Inr sampleMarket, upBookResp = Inr emptyBook, downBookResp = Inr emptyBook,
     nowBeforeWait = 0, upPostResp = Inr ''U'', downPostResp = Inr ''D'', nowPlaced = 0,
     rtdsInit = False,
     cycles = [sampleCycle, sampleCycle \<lparr> nowLoop := 4000 \<rparr>, sampleCycle \<lparr> nowLoop := 900000 \<rparr>],
     sweepResp = (\<lambda>oid. if oid = ''U'' then Some ''already filled'' else None) \<rparr>"



definition repeatArgs :: args where
  "repeatArgs = \<lparr> argPRICE = Fin (49 / 100), argINVEST_PER_SIDE = Fin 5, argShares = Some (Fin 10),
     argDURATION_MIN = Fin 15, argStartAt = None, argALIGN_15M = True,
     argALIGN_MARKET_START = False, argREPEAT = True, argPOST_ONLY = True,
     argPOLL_SEC = 3, argPAIR_GRACE_SEC = 0, argON_SINGLE_FILL = ''hedge'',
     argMIN_EDGE = 5 / 1000, argMIN_HEDGE_EDGE = 2 / 1000, argALLOW_WEIRD_QUOTES = False,
     argUSE_RTDS = False, argMARKET_SLUG = Some ''btc-updown-15m-1767224700'',
     argSIGNATURE_TYPE = Fin 0, argUP_TOKEN_ID = ''up'', argDOWN_TOKEN_ID = ''down'' \<rparr>"

definition sampleWorld :: world where
  "sampleWorld = \<lparr> nowMain = 1767224701234, dateParse = (\<lambda>_. None),
     toNumber = (\<lambda>s. if s = ''1767224700'' then Fin 1767224700 else NaN),
     windows = [sampleEnv, sampleEnv] \<rparr>"

definition sampleWindow :: window where
  "sampleWindow = \<lparr> upTickSize = Fin (1 / 100), downTickSize = Fin (1 / 100),
     upNegRisk = False, downNegRisk = False, sizeShares = 10,
     upOrderID = ''U'', downOrderID = ''D'', orderIds = [''U'', ''D''],
     cancelAtMs = 900000, rtdClient = False \<rparr>"

definition fullCycle :: cycle where
  "fullCycle = sampleCycle \<lparr> downOrderResp := Some (order 10 10) \<rparr>"

definition partialCycle :: cycle where
  "partialCycle = sampleCycle \<lparr> upOrderResp := Some (order 5 10), downOrderResp := Some (order 3 10) \<rparr>"




definition blindCycle :: cycle where
  "blindCycle = sampleCycle \<lparr> upOrderResp := None, downOrderResp := None \<rparr>"

section \<open>Properties of pricing\<close>












section \<open>Properties of the pre-trade checks\<close>






lemma isWeird_iff:
  "isWeird x \<longleftrightarrow> (\<exists>v. x = Some v \<and> (js_le v (Fin 0) \<or> js_le (Fin 1) v))"
  by (cases x) (simp_all add: isWeird_def orNaN_def)

lemma isWeird_Fin: "isWeird (Some (Fin q)) \<longleftrightarrow> q \<le> 0 \<or> 1 \<le> q"
  by (auto simp: isWeird_def orNaN_def js_le_def)

lemma empty_books_pass:
  "\<not> quotesRefused cfg (parseOrderBookTop \<lparr> bids = [], asks = [] \<rparr>)
                        (parseOrderBookTop \<lparr> bids = [], asks = [] \<rparr>)"
  by (simp add: quotesRefused_def parseOrderBookTop_def isWeird_def)

lemma empty_books_placed:
  assumes "apiKeyResp env = Inr ()" "upMarketResp env = Inr um" "downMarketResp env = Inr dm"
    "chooseSize cfg = Inr sz"
    "upBookResp env = Inr \<lparr> bids = [], asks = [] \<rparr>"
    "downBookResp env = Inr \<lparr> bids = [], asks = [] \<rparr>"
  shows "\<exists>rest. postedOrders (fst (placePair cfg env t)) =
     \<lparr> tokenID = UP_TOKEN_ID cfg, price = roundDownToTick (PRICE cfg) (mTickSize um),
       shares = sz, side = BUY, tickSize = mTickSize um, negRisk = mNegRisk um,
       postOnly = POST_ONLY cfg \<rparr> # rest"
  using assms empty_books_pass [of cfg]
  by (auto simp: placePair_def andThen_def request_def emit_def Let_def
      split: sum.splits)

text \<open>
  Claim C9. A quote is refused only when it is present and at most 0 or at least 1; a
  missing best bid or best ask is not weird. With both books empty the check passes whatever
  the override is, and (the earlier calls having succeeded) the UP leg is submitted.
\<close>

theorem empty_book_passes_quote_check:
  "(isWeird x \<longleftrightarrow> (\<exists>v. x = Some v \<and> (js_le v (Fin 0) \<or> js_le (Fin 1) v)))
   \<and> \<not> isWeird None
   \<and> (isWeird (Some (Fin q)) \<longleftrightarrow> q \<le> 0 \<or> 1 \<le> q)
   \<and> \<not> quotesRefused cfg (parseOrderBookTop \<lparr> bids = [], asks = [] \<rparr>)
                           (parseOrderBookTop \<lparr> bids = [], asks = [] \<rparr>)
   \<and> (apiKeyResp env = Inr () \<and> upMarketResp env = Inr um \<and> downMarketResp env = Inr dm
        \<and> chooseSize cfg = Inr sz
        \<and> upBookResp env = Inr \<lparr> bids = [], asks = [] \<rparr>
        \<and> downBookResp env = Inr \<lparr> bids = [], asks = [] \<rparr> \<longrightarrow>
        (\<exists>rest. postedOrders (fst (placePair cfg env t)) =
           \<lparr> tokenID = UP_TOKEN_ID cfg, price = roundDownToTick (PRICE cfg) (mTickSize um),
             shares = sz, side = BUY, tickSize = mTickSize um, negRisk = mNegRisk um,
             postOnly = POST_ONLY cfg \<rparr> # rest))"
proof -
  have "\<not> isWeird None" by (simp add: isWeird_def)
  then show ?thesis
    using isWeird_iff [of x] isWeird_Fin [of q] empty_books_pass [of cfg]
      empty_books_placed [of env um dm cfg sz t]
    by blast
qed

text \<open>The sample window: both books are empty, the override is off, and both legs are posted.\<close>

theorem empty_book_passes_quote_check_witness:
  "\<not> ALLOW_WEIRD_QUOTES sampleConfig
   \<and> upBookResp sampleEnv = Inr \<lparr> bids = [], asks = [] \<rparr>
   \<and> downBookResp sampleEnv = Inr \<lparr> bids = [], asks = [] \<rparr>
   \<and> (\<exists>rest. postedOrders (fst (placePair sampleConfig sampleEnv 0)) =
         \<lparr> tokenID = ''up'', price = 49 / 100, shares = 10, side = BUY,
           tickSize = Fin (1 / 100), negRisk = False, postOnly = True \<rparr> # rest)"
proof -
  have sz: "chooseSize sampleConfig = Inr 10"
    by (simp add: chooseSize_def sampleConfig_def)
  have p: "roundDownToTick (49 / 100) (Fin (1 / 100)) = 49 / 100"
    by code_simp
  have e: "apiKeyResp sampleEnv = Inr () \<and> upMarketResp sampleEnv = Inr sampleMarket
      \<and> downMarketResp sampleEnv = Inr sampleMarket
      \<and> upBookResp sampleEnv = Inr \<lparr> bids = [], asks = [] \<rparr>
      \<and> downBookResp sampleEnv = Inr \<lparr> bids = [], asks = [] \<rparr>"
    by (simp add: sampleEnv_def emptyBook_def)
  have c: "\<not> ALLOW_WEIRD_QUOTES sampleConfig \<and> UP_TOKEN_ID sampleConfig = ''up''
      \<and> PRICE sampleConfig = 49 / 100 \<and> POST_ONLY sampleConfig"
    by (simp add: sampleConfig_def)
  have m: "mTickSize sampleMarket = Fin (1 / 100) \<and> \<not> mNegRisk sampleMarket"
    by (simp add: sampleMarket_def)
  show ?thesis
    using empty_book_passes_quote_check [of None 0 sampleConfig sampleEnv sampleMarket sampleMarket 10 0]
      sz e c m p
    by simp
qed

section \<open>Properties of the window scheduler\<close>

lemma repeat_starts:
  "i < length (repeatWindows cfg t envs) \<Longrightarrow>
   fst (repeatWindows cfg t envs ! i) = t + (int i + 1) * (15 * 60 * 1000)"
proof (induction envs arbitrary: t i)
  case Nil
  then show ?case by simp
next
  case (Cons env envs)
  show ?case
  proof (cases i)
    case 0
    then show ?thesis by (simp add: Let_def)
  next
    case (Suc j)
    with Cons.prems have r: "snd (runOneWindow cfg env (t + 15 * 60 * 1000)) = Returned"
      by (auto simp: Let_def split: if_splits)
    with Cons.prems Suc have "j < length (repeatWindows cfg (t + 15 * 60 * 1000) envs)"
      by (simp add: Let_def)
    from Cons.IH [OF this] r Suc show ?thesis
      by (simp add: Let_def algebra_simps)
  qed
qed

lemma repeat_length:
  "list_all (\<lambda>r. snd (snd r) = Returned) (repeatWindows cfg t envs) \<Longrightarrow>
   length (repeatWindows cfg t envs) = length envs"
  by (induction envs arbitrary: t) (auto simp: Let_def split: if_splits)

lemma main_repeat:
  "argREPEAT a \<Longrightarrow> checkArgs a = Inr cfg \<Longrightarrow> firstWindowStart a wld = Inr t0 \<Longrightarrow>
   fst (main a wld) = repeatWindows cfg t0 (windows wld)"
  by (simp add: main_def Let_def)

text \<open>
  Claim C8. In repeat mode each window is started at the previous window's start plus
  900000 ms (15 minutes): the \<open>i\<close>-th window run (counting from 0) is given the start
  \<open>t0 + (i + 1) * 900000\<close>, where \<open>t0\<close> is the start resolved by \<^verbatim>\<open>main\<close>; no clock reading
  enters. As long as every window returns, one window is run for each environment supplied,
  however many there are.
\<close>

theorem repeat_window_starts:
  "(\<forall>i. Suc i < length (repeatWindows cfg t0 envs) \<longrightarrow>
        fst (repeatWindows cfg t0 envs ! Suc i) = fst (repeatWindows cfg t0 envs ! i) + 15 * 60 * 1000)
   \<and> (\<forall>i. i < length (repeatWindows cfg t0 envs) \<longrightarrow>
        fst (repeatWindows cfg t0 envs ! i) = t0 + (int i + 1) * (15 * 60 * 1000))
   \<and> (list_all (\<lambda>r. snd (snd r) = Returned) (repeatWindows cfg t0 envs) \<longrightarrow>
        length (repeatWindows cfg t0 envs) = length envs)
   \<and> (argREPEAT a \<and> checkArgs a = Inr cfg \<and> firstWindowStart a wld = Inr t0 \<longrightarrow>
        fst (main a wld) = repeatWindows cfg t0 (windows wld))"
proof -
  let ?runs = "repeatWindows cfg t0 envs"
  have a: "fst (?runs ! i) = t0 + (int i + 1) * (15 * 60 * 1000)" if "i < length ?runs" for i
    using that by (rule repeat_starts)
  have b: "fst (?runs ! Suc i) = fst (?runs ! i) + 15 * 60 * 1000" if "Suc i < length ?runs" for i
  proof -
    have "i < length ?runs" using that by simp
    then show ?thesis using a [of i] a [OF that] by simp
  qed
  show ?thesis using a b repeat_length [of cfg t0 envs] main_repeat [of a cfg wld t0] by blast
qed

text \<open>Three windows from the anchor 1767224700000, each returning normally.\<close>

theorem repeat_window_starts_witness:
  "length (repeatWindows sampleConfig 1767224700000 [sampleEnv, sampleEnv, sampleEnv]) = 3
   \<and> fst (repeatWindows sampleConfig 1767224700000 [sampleEnv, sampleEnv, sampleEnv] ! 0)
       = 1767225600000
   \<and> fst (repeatWindows sampleConfig 1767224700000 [sampleEnv, sampleEnv, sampleEnv] ! 1)
       = 1767226500000
   \<and> fst (repeatWindows sampleConfig 1767224700000 [sampleEnv, sampleEnv, sampleEnv] ! 2)
       = 1767227400000"
proof -
  define runs where "runs = repeatWindows sampleConfig 1767224700000 [sampleEnv, sampleEnv, sampleEnv]"
  have r: "snd (runOneWindow sampleConfig sampleEnv t) = Returned" for t
    by (simp add: runOneWindow_def placePair_def andThen_def request_def emit_def
      sampleEnv_def sampleConfig_def sampleMarket_def emptyBook_def chooseSize_def
      quotesRefused_def parseOrderBookTop_def isWeird_def Let_def sampleCycle_def
      observeAndAct_def readFills_def parseMatchedShares_def parseOriginalShares_def order_def
      orElse_def bothFull_def upFull_def downFull_def oneSome_def upSome_def downSome_def eps_def
      singleFillAction_def hedge_def bookWithAsk_def orNaN_def
      split: prod.splits)
  have all: "list_all (\<lambda>r. snd (snd r) = Returned) runs"
    unfolding runs_def using r by (simp add: Let_def)
  note inst = repeat_window_starts [of sampleConfig 1767224700000 "[sampleEnv, sampleEnv, sampleEnv]",
      folded runs_def]
  have len: "length runs = 3" using inst all by simp
  have s: "fst (runs ! i) = 1767224700000 + (int i + 1) * (15 * 60 * 1000)" if "i < 3" for i
    using inst that len by simp
  show ?thesis using s [of 0] s [of 1] s [of 2] len unfolding runs_def by simp
qed

lemma main_once:
  "\<not> argREPEAT a \<Longrightarrow> checkArgs a = Inr cfg \<Longrightarrow> firstWindowStart a wld = Inr t0 \<Longrightarrow>
   windows wld \<noteq> [] \<Longrightarrow> map fst (fst (main a wld)) = [t0]"
  by (cases "windows wld") (simp_all add: main_def Let_def)

lemma repeat_hd:
  "envs \<noteq> [] \<Longrightarrow> fst (hd (repeatWindows cfg t envs)) = t + 15 * 60 * 1000"
  by (cases envs) (simp_all add: Let_def)

lemma repeat_nonempty: "envs \<noteq> [] \<Longrightarrow> repeatWindows cfg t envs \<noteq> []"
  by (cases envs) (simp_all add: Let_def)

lemma repeat_later:
  assumes "r \<in> set (repeatWindows cfg t envs)"
  shows "t + 15 * 60 * 1000 \<le> fst r"
proof -
  from assms obtain i where i: "i < length (repeatWindows cfg t envs)"
    and r: "r = repeatWindows cfg t envs ! i"
    by (auto simp: in_set_conv_nth)
  have "fst r = t + (int i + 1) * (15 * 60 * 1000)"
    unfolding r using i by (rule repeat_starts)
  then show ?thesis by simp
qed

text \<open>
  Claim C10. In repeat mode no window is run at the resolved start \<open>t0\<close> itself: every
  window run has a start of at least \<open>t0 + 900000\<close>, and the first one is run at exactly
  \<open>t0 + 900000\<close>. (Without the repeat flag the single window is run at \<open>t0\<close>.)
\<close>

theorem repeat_skips_resolved_start:
  "(argREPEAT a \<and> checkArgs a = Inr cfg \<and> firstWindowStart a wld = Inr t0 \<longrightarrow>
      (\<forall>r \<in> set (fst (main a wld)). fst r \<noteq> t0 \<and> t0 + 15 * 60 * 1000 \<le> fst r)
    \<and> (windows wld \<noteq> [] \<longrightarrow>
         fst (main a wld) \<noteq> [] \<and> fst (hd (fst (main a wld))) = t0 + 15 * 60 * 1000))
   \<and> (\<not> argREPEAT a \<and> checkArgs a = Inr cfg \<and> firstWindowStart a wld = Inr t0
        \<and> windows wld \<noteq> [] \<longrightarrow> map fst (fst (main a wld)) = [t0])"
proof -
  have rep: "(\<forall>r \<in> set (fst (main a wld)). fst r \<noteq> t0 \<and> t0 + 15 * 60 * 1000 \<le> fst r)
    \<and> (windows wld \<noteq> [] \<longrightarrow>
         fst (main a wld) \<noteq> [] \<and> fst (hd (fst (main a wld))) = t0 + 15 * 60 * 1000)"
    if h: "argREPEAT a \<and> checkArgs a = Inr cfg \<and> firstWindowStart a wld = Inr t0"
  proof -
    have m: "fst (main a wld) = repeatWindows cfg t0 (windows wld)"
      using h by (simp add: main_repeat)
    have "fst r \<noteq> t0 \<and> t0 + 15 * 60 * 1000 \<le> fst r" if "r \<in> set (fst (main a wld))" for r
      using repeat_later [of r cfg t0 "windows wld"] that m by simp
    moreover have "fst (main a wld) \<noteq> [] \<and> fst (hd (fst (main a wld))) = t0 + 15 * 60 * 1000"
      if "windows wld \<noteq> []"
      using that m by (simp add: repeat_hd repeat_nonempty)
    ultimately show ?thesis by blast
  qed
  show ?thesis using rep main_once [of a cfg wld t0] by blast
qed

lemma checkArgs_repeatArgs: "checkArgs repeatArgs = Inr sampleConfig"
  by (simp add: checkArgs_def repeatArgs_def sampleConfig_def pairEdge_def)

lemma firstWindowStart_sample: "firstWindowStart repeatArgs sampleWorld = Inr 1767225600000"
  by (simp add: firstWindowStart_def repeatArgs_def sampleWorld_def truthy_def ceilToWindowMs_def
      Let_def ceiling_unique)

text \<open>
  The sample run: the 15-minute boundary after the clock reading is 1767225600000, and the
  first window is run at 1767226500000.
\<close>

theorem repeat_skips_resolved_start_witness:
  "argREPEAT repeatArgs \<and> checkArgs repeatArgs = Inr sampleConfig
   \<and> firstWindowStart repeatArgs sampleWorld = Inr 1767225600000
   \<and> windows sampleWorld \<noteq> []
   \<and> fst (hd (fst (main repeatArgs sampleWorld))) = 1767226500000
   \<and> \<not> (\<exists>r \<in> set (fst (main repeatArgs sampleWorld)). fst r = 1767225600000)"
proof -
  have a: "argREPEAT repeatArgs" by (simp add: repeatArgs_def)
  have w: "windows sampleWorld \<noteq> []" by (simp add: sampleWorld_def)
  show ?thesis
    using repeat_skips_resolved_start [of repeatArgs sampleConfig sampleWorld 1767225600000]
      a w checkArgs_repeatArgs firstWindowStart_sample
    by simp
qed


section \<open>Properties of the monitoring loop\<close>

lemma fst_emit: "fst (emit evs r) = evs @ fst r" and snd_emit: "snd (emit evs r) = snd r"
  by (simp_all add: emit_def)

lemma hedge_events:
  "filter isMitigation (fst (hedge cfg tok tick nr ms c)) = []"
  "length (filter isPostOrder (fst (hedge cfg tok tick nr ms c))) \<le> Suc 0"
  "filter isCancelOrder (fst (hedge cfg tok tick nr ms c)) = []"
  by (auto simp: hedge_def Let_def split: sum.splits)

lemma action_mitigation:
  "length (filter isMitigation (fst (singleFillAction cfg w f c))) \<le> 1"
  by (simp add: singleFillAction_def Let_def cancelBestEffort_def fst_emit hedge_events)

lemma action_posts:
  "length (filter isPostOrder (fst (singleFillAction cfg w f c))) \<le> 1"
  by (simp add: singleFillAction_def Let_def cancelBestEffort_def fst_emit hedge_events)

lemma action_cancels:
  "length (filter isCancelOrder (fst (singleFillAction cfg w f c))) \<le> 1"
  by (simp add: singleFillAction_def Let_def cancelBestEffort_def fst_emit hedge_events)

lemma step_budget:
  assumes quiet: "\<And>x. \<not> P (Sleep x)" "\<And>i. \<not> P (Call (GetOrder i))"
      "\<And>a b. \<not> P (Log (BothLegsFilled a b))" "\<And>a b. \<not> P (Log (SingleLegFill a b))"
    and act: "\<And>f. length (filter P (fst (singleFillAction cfg w f c))) \<le> 1"
  shows "length (filter P (fst (observeAndAct cfg w st c)))
           + (case snd (observeAndAct cfg w st c) of Continue st' \<Rightarrow> budget st' | _ \<Rightarrow> 0)
         \<le> budget st"
proof -
  define f where "f = readFills (sizeShares w) (upOrderResp c) (downOrderResp c)"
  obtain evs r where a: "singleFillAction cfg w f c = (evs, r)" by (cases "singleFillAction cfg w f c")
  have le: "length (filter P evs) \<le> 1" using act [of f] a by simp
  show ?thesis
    unfolding observeAndAct_def Let_def f_def [symmetric]
    using quiet le a
    by (auto simp: budget_def split: option.splits)
qed

lemma monitor_budget:
  assumes quiet: "\<And>x. \<not> P (Sleep x)" "\<And>i. \<not> P (Call (GetOrder i))"
      "\<And>a b. \<not> P (Log (BothLegsFilled a b))" "\<And>a b. \<not> P (Log (SingleLegFill a b))"
    and act: "\<And>f c. length (filter P (fst (singleFillAction cfg w f c))) \<le> 1"
  shows "length (filter P (fst (monitor cfg w st cs))) \<le> budget st"
proof (induction cs arbitrary: st)
  case Nil
  then show ?case by simp
next
  case (Cons c cs)
  note sb = step_budget [of P cfg w c st, OF quiet act]
  show ?case
  proof (cases "snd (observeAndAct cfg w st c)")
    case (Continue st')
    with sb have "length (filter P (fst (observeAndAct cfg w st c))) + budget st' \<le> budget st"
      by simp
    moreover have "length (filter P (fst (monitor cfg w st' cs))) \<le> budget st'"
      by (rule Cons.IH)
    ultimately show ?thesis
      using Continue Cons.IH [of st] quiet
      by (auto simp: fst_emit split: prod.splits step.splits)
  next
    case Break
    with sb show ?thesis
      using Cons.IH [of st] quiet by (auto simp: fst_emit split: prod.splits step.splits)
  next
    case (Throw e)
    with sb show ?thesis
      using Cons.IH [of st] quiet by (auto simp: fst_emit split: prod.splits step.splits)
  qed
qed

lemma step_latch:
  assumes "observeAndAct cfg w st c = (evs, Continue st')"
  shows "(actedOnSingleFill st \<longrightarrow> actedOnSingleFill st')
       \<and> ((\<exists>e \<in> set evs. isMitigation e) \<longrightarrow> actedOnSingleFill st' \<and> \<not> actedOnSingleFill st)"
  using assms unfolding observeAndAct_def Let_def
  by (auto split: if_splits prod.splits option.splits)


lemma sweep_quiet:
  "filter isMitigation (cancelSweep resp ids) = []"
  "filter isPostOrder (cancelSweep resp ids) = []"
  by (induction ids) (simp_all add: cancelBestEffort_def Let_def)

lemma sweep_cancels: "cancelledIds (cancelSweep resp ids) = ids"
  by (induction ids) (simp_all add: cancelBestEffort_def Let_def)

lemma placePair_quiet: "filter isMitigation (fst (placePair cfg env t)) = []"
  by (auto simp: placePair_def andThen_def request_def emit_def Let_def
      split: sum.splits)

lemma monitor_mitigation:
  "length (filter isMitigation (fst (monitor cfg w st cs))) \<le> budget st"
  by (rule monitor_budget; (rule action_mitigation | simp))

lemma monitor_posts:
  "length (filter isPostOrder (fst (monitor cfg w st cs))) \<le> budget st"
  by (rule monitor_budget; (rule action_posts | simp))

lemma monitor_cancels:
  "length (filter isCancelOrder (fst (monitor cfg w st cs))) \<le> budget st"
  by (rule monitor_budget; (rule action_cancels | simp))

lemma window_mitigation:
  "length (filter isMitigation (fst (runOneWindow cfg env t))) \<le> 1"
proof (cases "placePair cfg env t")
  case (Pair evs r)
  have q: "filter isMitigation evs = []"
    using placePair_quiet [of cfg env t] Pair by simp
  show ?thesis
  proof (cases r)
    case (Inl e)
    then show ?thesis using Pair q by (simp add: runOneWindow_def)
  next
    case (Inr w)
    obtain evs' e where m: "monitor cfg w initialState (cycles env) = (evs', e)"
      by (cases "monitor cfg w initialState (cycles env)")
    have "length (filter isMitigation evs') \<le> 1"
      using monitor_mitigation [of cfg w initialState "cycles env"] m
      by (simp add: budget_def initialState_def)
    then show ?thesis
      using Pair Inr q m by (cases e) (simp_all add: runOneWindow_def sweep_quiet)
  qed
qed

text \<open>
  Claim C2. Whatever the world answers, the monitoring loop announces at most one
  single-fill action, submits at most one order and attempts at most one cancel, and none
  at all once the latch \<open>actedOnSingleFill\<close> is set. A pass of the loop that runs the action
  sets the latch, and no pass clears it. A whole window therefore contains at most one
  mitigation action.
\<close>

theorem single_mitigation_per_window:
  "length (filter isMitigation (fst (monitor cfg w st cs))) \<le> (if actedOnSingleFill st then 0 else 1)
   \<and> length (filter isPostOrder (fst (monitor cfg w st cs))) \<le> (if actedOnSingleFill st then 0 else 1)
   \<and> length (filter isCancelOrder (fst (monitor cfg w st cs))) \<le> (if actedOnSingleFill st then 0 else 1)
   \<and> (observeAndAct cfg w st c = (evs, Continue st') \<longrightarrow>
        (actedOnSingleFill st \<longrightarrow> actedOnSingleFill st')
      \<and> ((\<exists>e \<in> set evs. isMitigation e) \<longrightarrow> actedOnSingleFill st' \<and> \<not> actedOnSingleFill st))
   \<and> length (filter isMitigation (fst (runOneWindow cfg env t))) \<le> 1"
  using monitor_mitigation [of cfg w st cs] monitor_posts [of cfg w st cs]
    monitor_cancels [of cfg w st cs] step_latch [of cfg w st c evs st']
    window_mitigation [of cfg env t]
  unfolding budget_def by blast

lemma sample_step:
  "observeAndAct sampleConfig sampleWindow initialState sampleCycle =
     ([Call (GetOrder ''U''), Call (GetOrder ''D''), Log (SingleLegFill 10 0),
       Log (GraceElapsed UP 10 ''hedge''), Call (GetOrderBook ''down''),
       Log (Hedging ''down'' 10 (1 / 2)),
       Call (PostOrder \<lparr> tokenID = ''down'', price = 1 / 2, shares = 10, side = BUY,
          tickSize = Fin (1 / 100), negRisk = False, postOnly = False \<rparr>),
       Log (HedgePosted ''H''), Sleep 3000],
      Continue \<lparr> firstSingleFillAtMs = Some 1000, actedOnSingleFill = True \<rparr>)"
  by code_simp

text \<open>
  The sample window: the first pass hedges and sets the latch, the later passes do nothing
  more.
\<close>

theorem single_mitigation_per_window_witness:
  "\<not> actedOnSingleFill initialState
   \<and> length (filter isMitigation (fst (monitor sampleConfig sampleWindow initialState (cycles sampleEnv)))) = 1
   \<and> length (filter isPostOrder (fst (monitor sampleConfig sampleWindow initialState (cycles sampleEnv)))) = 1
   \<and> length (filter isMitigation (fst (monitor sampleConfig sampleWindow
        \<lparr> firstSingleFillAtMs = Some 1000, actedOnSingleFill = True \<rparr> (cycles sampleEnv)))) = 0
   \<and> (\<exists>evs st'. observeAndAct sampleConfig sampleWindow initialState sampleCycle = (evs, Continue st')
        \<and> (\<exists>e \<in> set evs. isMitigation e) \<and> actedOnSingleFill st')"
proof -
  let ?st1 = "\<lparr> firstSingleFillAtMs = Some 1000, actedOnSingleFill = True \<rparr>"
  have n: "\<not> actedOnSingleFill initialState" by (simp add: initialState_def)
  have one: "length (filter isMitigation (fst (monitor sampleConfig sampleWindow initialState (cycles sampleEnv)))) = 1"
    by code_simp
  have post: "length (filter isPostOrder (fst (monitor sampleConfig sampleWindow initialState (cycles sampleEnv)))) = 1"
    by code_simp
  have zero: "length (filter isMitigation (fst (monitor sampleConfig sampleWindow ?st1 (cycles sampleEnv)))) = 0"
    using single_mitigation_per_window [of sampleConfig sampleWindow ?st1 "cycles sampleEnv"]
    by simp
  have m: "\<exists>e \<in> set (fst (observeAndAct sampleConfig sampleWindow initialState sampleCycle)). isMitigation e"
    unfolding sample_step by simp
  have "actedOnSingleFill ?st1" by simp
  then show ?thesis using n one post zero m sample_step by (metis fst_conv)
qed

lemma both_full_step:
  "bothFull (readFills (sizeShares w) (upOrderResp c) (downOrderResp c)) \<Longrightarrow>
   observeAndAct cfg w st c =
     ([Call (GetOrder (upOrderID w)), Call (GetOrder (downOrderID w)),
       Log (BothLegsFilled (parseMatchedShares (upOrderResp c)) (parseMatchedShares (downOrderResp c)))],
      Break)"
  by (simp add: observeAndAct_def Let_def readFills_def)

lemma both_full_monitor:
  assumes "bothFull (readFills (sizeShares w) (upOrderResp c) (downOrderResp c))"
    and "of_int (nowLoop c) < cancelAtMs w"
    and "\<not> (USE_RTDS cfg \<and> rtdClient w \<and> \<not> rtdsTriggered c)"
  shows "monitor cfg w st (c # cs) =
     ([Call (GetOrder (upOrderID w)), Call (GetOrder (downOrderID w)),
       Log (BothLegsFilled (parseMatchedShares (upOrderResp c)) (parseMatchedShares (downOrderResp c)))],
      Exited)"
  using assms(2,3) both_full_step [OF assms(1), of cfg st] by auto

lemma both_full_window:
  assumes "bothFull (readFills (sizeShares w) (upOrderResp c) (downOrderResp c))"
    and "of_int (nowLoop c) < cancelAtMs w"
    and "\<not> (USE_RTDS cfg \<and> rtdClient w \<and> \<not> rtdsTriggered c)"
    and "placePair cfg env t = (evs0, Inr w)" and "cycles env = c # cs"
  shows "runOneWindow cfg env t =
     (evs0 @ [Call (GetOrder (upOrderID w)), Call (GetOrder (downOrderID w)),
       Log (BothLegsFilled (parseMatchedShares (upOrderResp c)) (parseMatchedShares (downOrderResp c)))]
      @ [Log CancellingOrders] @ cancelSweep (sweepResp env) (orderIds w), Returned)"
  using both_full_monitor [OF assms(1-3), of initialState cs] assms(4,5)
  by (simp add: runOneWindow_def)

lemma bothFull_iff:
  "bothFull (readFills sz (Some \<lparr> size_matched = Fin um, original_size = Fin uo \<rparr>)
                          (Some \<lparr> size_matched = Fin dm, original_size = Fin d \<rparr>))
   \<longleftrightarrow> um + eps \<ge> orElse uo sz \<and> dm + eps \<ge> orElse d sz"
  by (simp add: bothFull_def upFull_def downFull_def readFills_def parseMatchedShares_def
      parseOriginalShares_def)

text \<open>
  Claim C3. When a pass of the loop reads both legs as fully filled (matched plus \<open>1e-9\<close> at
  least the original size), it only logs and breaks: the loop ends at once, whatever cycles
  would follow, with no mitigation, no order and no cancel; the window then goes straight
  to the closing sweep.
\<close>

theorem both_full_stops_monitoring:
  "(bothFull (readFills (sizeShares w) (upOrderResp c) (downOrderResp c)) \<longrightarrow>
      observeAndAct cfg w st c =
        ([Call (GetOrder (upOrderID w)), Call (GetOrder (downOrderID w)),
          Log (BothLegsFilled (parseMatchedShares (upOrderResp c)) (parseMatchedShares (downOrderResp c)))],
         Break)
    \<and> (of_int (nowLoop c) < cancelAtMs w \<and> \<not> (USE_RTDS cfg \<and> rtdClient w \<and> \<not> rtdsTriggered c) \<longrightarrow>
          monitor cfg w st (c # cs) =
            ([Call (GetOrder (upOrderID w)), Call (GetOrder (downOrderID w)),
              Log (BothLegsFilled (parseMatchedShares (upOrderResp c)) (parseMatchedShares (downOrderResp c)))],
             Exited)
        \<and> (placePair cfg env t = (evs0, Inr w) \<and> cycles env = c # cs \<longrightarrow>
             runOneWindow cfg env t =
               (evs0 @ [Call (GetOrder (upOrderID w)), Call (GetOrder (downOrderID w)),
                  Log (BothLegsFilled (parseMatchedShares (upOrderResp c)) (parseMatchedShares (downOrderResp c)))]
                @ [Log CancellingOrders] @ cancelSweep (sweepResp env) (orderIds w), Returned))))
   \<and> (bothFull (readFills sz (Some \<lparr> size_matched = Fin um, original_size = Fin uo \<rparr>)
                             (Some \<lparr> size_matched = Fin dm, original_size = Fin d \<rparr>))
       \<longleftrightarrow> um + eps \<ge> orElse uo sz \<and> dm + eps \<ge> orElse d sz)"
  using both_full_step [of w c cfg st] both_full_monitor [of w c cfg st cs]
    both_full_window [of w c cfg env t evs0 cs] bothFull_iff [of sz um uo dm d]
  by blast

text \<open>Both sample legs filled 10 of 10.\<close>

theorem both_full_stops_monitoring_witness:
  "bothFull (readFills (sizeShares sampleWindow) (upOrderResp fullCycle) (downOrderResp fullCycle))
   \<and> of_int (nowLoop fullCycle) < cancelAtMs sampleWindow
   \<and> monitor sampleConfig sampleWindow initialState (fullCycle # cycles sampleEnv) =
       ([Call (GetOrder ''U''), Call (GetOrder ''D''), Log (BothLegsFilled 10 10)], Exited)"
proof -
  have b: "bothFull (readFills (sizeShares sampleWindow) (upOrderResp fullCycle) (downOrderResp fullCycle))"
    by code_simp
  have t: "of_int (nowLoop fullCycle) < cancelAtMs sampleWindow"
    by (simp add: fullCycle_def sampleCycle_def sampleWindow_def)
  have r: "\<not> (USE_RTDS sampleConfig \<and> rtdClient sampleWindow \<and> \<not> rtdsTriggered fullCycle)"
    by (simp add: sampleConfig_def)
  have v: "upOrderID sampleWindow = ''U'' \<and> downOrderID sampleWindow = ''D''
      \<and> parseMatchedShares (upOrderResp fullCycle) = 10
      \<and> parseMatchedShares (downOrderResp fullCycle) = 10"
    by (simp add: sampleWindow_def fullCycle_def sampleCycle_def order_def parseMatchedShares_def)
  have m: "monitor sampleConfig sampleWindow initialState (fullCycle # cycles sampleEnv) =
       ([Call (GetOrder (upOrderID sampleWindow)), Call (GetOrder (downOrderID sampleWindow)),
         Log (BothLegsFilled (parseMatchedShares (upOrderResp fullCycle))
                (parseMatchedShares (downOrderResp fullCycle)))], Exited)"
    using both_full_stops_monitoring [of sampleWindow fullCycle sampleConfig initialState
        "cycles sampleEnv" sampleEnv 0 "[]" 0 0 0 0 0] b t r
    by blast
  show ?thesis using m b t v by (simp del: monitor.simps)
qed











lemma readFills_failed_up:
  "readFills sz None d = readFills sz (Some \<lparr> size_matched = Fin 0, original_size = Fin sz \<rparr>) d"
  by (simp add: readFills_def parseMatchedShares_def parseOriginalShares_def orElse_def)

lemma readFills_failed_down:
  "readFills sz u None = readFills sz u (Some \<lparr> size_matched = Fin 0, original_size = Fin sz \<rparr>)"
  by (simp add: readFills_def parseMatchedShares_def parseOriginalShares_def orElse_def)

lemma hedge_cong:
  assumes "otherBookResp c = otherBookResp c'" "hedgeResp c = hedgeResp c'"
  shows "hedge cfg tok tick nr ms c = hedge cfg tok tick nr ms c'"
  unfolding hedge_def assms by (rule refl)

lemma action_cong:
  assumes "otherBookResp c = otherBookResp c'" "hedgeResp c = hedgeResp c'"
    "cancelResp c = cancelResp c'"
  shows "singleFillAction cfg w f c = singleFillAction cfg w f c'"
  unfolding singleFillAction_def hedge_cong [OF assms(1,2)] assms(3) by (rule refl)

lemma step_cong:
  assumes "readFills (sizeShares w) (upOrderResp c) (downOrderResp c)
         = readFills (sizeShares w) (upOrderResp c') (downOrderResp c')"
    and "nowDetect c = nowDetect c'" "nowElapsed c = nowElapsed c'"
    and "otherBookResp c = otherBookResp c'" "hedgeResp c = hedgeResp c'"
      "cancelResp c = cancelResp c'"
  shows "observeAndAct cfg w st c = observeAndAct cfg w st c'"
  unfolding observeAndAct_def assms(1-3) action_cong [OF assms(4-6)] by (rule refl)

lemma step_failed_up:
  "observeAndAct cfg w st (c \<lparr> upOrderResp := None \<rparr>) =
   observeAndAct cfg w st (c \<lparr> upOrderResp := Some \<lparr> size_matched = Fin 0, original_size = Fin (sizeShares w) \<rparr> \<rparr>)"
  by (rule step_cong) (simp_all add: readFills_failed_up)

lemma step_failed_down:
  "observeAndAct cfg w st (c \<lparr> downOrderResp := None \<rparr>) =
   observeAndAct cfg w st (c \<lparr> downOrderResp := Some \<lparr> size_matched = Fin 0, original_size = Fin (sizeShares w) \<rparr> \<rparr>)"
  by (rule step_cong) (simp_all add: readFills_failed_down)

lemma step_both_failed:
  assumes "upOrderResp c = None" "downOrderResp c = None" "eps < sizeShares w"
  shows "observeAndAct cfg w st c =
     ([Call (GetOrder (upOrderID w)), Call (GetOrder (downOrderID w)), Sleep (POLL_SEC cfg * 1000)],
      Continue st)"
  using assms
  by (simp add: observeAndAct_def Let_def readFills_def parseMatchedShares_def parseOriginalShares_def
      orElse_def bothFull_def upFull_def downFull_def oneSome_def upSome_def downSome_def eps_def)

lemma monitor_both_failed:
  assumes "upOrderResp c = None" "downOrderResp c = None" "eps < sizeShares w"
    and "of_int (nowLoop c) < cancelAtMs w"
    and "\<not> (USE_RTDS cfg \<and> rtdClient w \<and> \<not> rtdsTriggered c)"
  shows "monitor cfg w st (c # cs) =
     emit [Call (GetOrder (upOrderID w)), Call (GetOrder (downOrderID w)), Sleep (POLL_SEC cfg * 1000)]
       (monitor cfg w st cs)"
  using assms(4,5) step_both_failed [OF assms(1-3), of cfg st] by auto

text \<open>
  Claim C5, as amended. A failed fill read is not fatal: the pass treats the leg exactly as
  an order with zero matched shares and the configured size as original size. When both
  reads fail (and the size exceeds \<open>1e-9\<close>) the pass classifies nothing, leaves the state as
  it was, sleeps, and the loop goes on with the next cycle.
\<close>

theorem failed_read_counts_as_unfilled:
  "observeAndAct cfg w st (c \<lparr> upOrderResp := None \<rparr>) =
     observeAndAct cfg w st (c \<lparr> upOrderResp :=
        Some \<lparr> size_matched = Fin 0, original_size = Fin (sizeShares w) \<rparr> \<rparr>)
   \<and> observeAndAct cfg w st (c \<lparr> downOrderResp := None \<rparr>) =
     observeAndAct cfg w st (c \<lparr> downOrderResp :=
        Some \<lparr> size_matched = Fin 0, original_size = Fin (sizeShares w) \<rparr> \<rparr>)
   \<and> (upOrderResp c = None \<and> downOrderResp c = None \<and> eps < sizeShares w \<longrightarrow>
        observeAndAct cfg w st c =
          ([Call (GetOrder (upOrderID w)), Call (GetOrder (downOrderID w)), Sleep (POLL_SEC cfg * 1000)],
           Continue st)
      \<and> (of_int (nowLoop c) < cancelAtMs w \<and> \<not> (USE_RTDS cfg \<and> rtdClient w \<and> \<not> rtdsTriggered c) \<longrightarrow>
           monitor cfg w st (c # cs) =
             emit [Call (GetOrder (upOrderID w)), Call (GetOrder (downOrderID w)),
                   Sleep (POLL_SEC cfg * 1000)]
               (monitor cfg w st cs)))"
  using step_failed_up [of cfg w st c] step_failed_down [of cfg w st c]
    step_both_failed [of c w cfg st] monitor_both_failed [of c w cfg st cs]
  by blast

text \<open>A pass in which both reads fail.\<close>

theorem failed_read_counts_as_unfilled_witness:
  "upOrderResp blindCycle = None \<and> downOrderResp blindCycle = None \<and> eps < sizeShares sampleWindow
   \<and> of_int (nowLoop blindCycle) < cancelAtMs sampleWindow
   \<and> observeAndAct sampleConfig sampleWindow initialState blindCycle =
       ([Call (GetOrder ''U''), Call (GetOrder ''D''), Sleep 3000], Continue initialState)
   \<and> monitor sampleConfig sampleWindow initialState [blindCycle] =
       ([Call (GetOrder ''U''), Call (GetOrder ''D''), Sleep 3000], Pending)"
proof -
  have h: "upOrderResp blindCycle = None \<and> downOrderResp blindCycle = None \<and> eps < sizeShares sampleWindow"
    by (simp add: blindCycle_def sampleWindow_def eps_def)
  have t: "of_int (nowLoop blindCycle) < cancelAtMs sampleWindow
      \<and> \<not> (USE_RTDS sampleConfig \<and> rtdClient sampleWindow \<and> \<not> rtdsTriggered blindCycle)"
    by (simp add: blindCycle_def sampleCycle_def sampleWindow_def sampleConfig_def)
  have v: "upOrderID sampleWindow = ''U'' \<and> downOrderID sampleWindow = ''D''
      \<and> POLL_SEC sampleConfig * 1000 = 3000"
    by (simp add: sampleWindow_def sampleConfig_def)
  note inst = failed_read_counts_as_unfilled [of sampleConfig sampleWindow initialState blindCycle "[]"]
  have s: "observeAndAct sampleConfig sampleWindow initialState blindCycle =
      ([Call (GetOrder (upOrderID sampleWindow)), Call (GetOrder (downOrderID sampleWindow)),
        Sleep (POLL_SEC sampleConfig * 1000)], Continue initialState)"
    using inst h by blast
  have m: "monitor sampleConfig sampleWindow initialState [blindCycle] =
      emit [Call (GetOrder (upOrderID sampleWindow)), Call (GetOrder (downOrderID sampleWindow)),
            Sleep (POLL_SEC sampleConfig * 1000)]
        (monitor sampleConfig sampleWindow initialState [])"
    using inst h t by blast
  show ?thesis using h t s m v by (simp add: emit_def)
qed

text \<open>
  Claim C5 as stated fails: a failed read changes the classification. With UP matched 5 and
  DOWN matched 3 neither \<open>oneSome\<close> nor a hedge follows; when the DOWN read fails, \<open>oneSome\<close>
  holds and 5 shares of DOWN are bought. With both legs full, a failed read makes
  \<open>bothFull\<close> false.
\<close>

theorem failed_read_changes_classification:
  "\<not> oneSome (readFills 10 (Some (order 5 10)) (Some (order 3 10)))
   \<and> oneSome (readFills 10 (Some (order 5 10)) None)
   \<and> bothFull (readFills 10 (Some (order 10 10)) (Some (order 10 10)))
   \<and> \<not> bothFull (readFills 10 (Some (order 10 10)) None)
   \<and> postedOrders (fst (observeAndAct sampleConfig sampleWindow initialState partialCycle)) = []
   \<and> postedOrders (fst (observeAndAct sampleConfig sampleWindow initialState
         (partialCycle \<lparr> downOrderResp := None \<rparr>))) =
       [\<lparr> tokenID = ''down'', price = 1 / 2, shares = 5, side = BUY,
          tickSize = Fin (1 / 100), negRisk = False, postOnly = False \<rparr>]"
  by code_simp

section \<open>The closing sweep\<close>

text \<open>
  The loop ends once the world supplies a cycle whose clock reading has reached the
  deadline, so a window whose pair was placed then returns or fails; it is never left
  unfinished.
\<close>

lemma monitor_ends_at_deadline:
  "\<exists>c \<in> set cs. \<not> of_int (nowLoop c) < cancelAtMs w \<Longrightarrow> snd (monitor cfg w st cs) \<noteq> Pending"
proof (induction cs arbitrary: st)
  case Nil
  then show ?case by simp
next
  case (Cons c cs)
  show ?case
  proof (cases "of_int (nowLoop c) < cancelAtMs w")
    case False
    then show ?thesis by simp
  next
    case True
    with Cons.prems have "\<exists>c \<in> set cs. \<not> of_int (nowLoop c) < cancelAtMs w" by auto
    then have "snd (monitor cfg w st' cs) \<noteq> Pending" for st'
      by (rule Cons.IH)
    then show ?thesis
      using True by (auto simp: snd_emit split: prod.splits step.splits)
  qed
qed

lemma window_ends_at_deadline:
  assumes "placePair cfg env t = (evs0, Inr w)"
    and "\<exists>c \<in> set (cycles env). \<not> of_int (nowLoop c) < cancelAtMs w"
  shows "snd (runOneWindow cfg env t) \<noteq> Unfinished"
proof -
  obtain evs e where m: "monitor cfg w initialState (cycles env) = (evs, e)"
    by (cases "monitor cfg w initialState (cycles env)")
  have "e \<noteq> Pending"
    using monitor_ends_at_deadline [OF assms(2), of cfg initialState] m by simp
  then show ?thesis using assms(1) m by (cases e) (simp_all add: runOneWindow_def)
qed

lemma window_sweep:
  assumes "runOneWindow cfg env t = (evs, Returned)"
  shows "\<exists>evs0 w evs1. placePair cfg env t = (evs0, Inr w)
     \<and> evs = evs0 @ evs1 @ [Log CancellingOrders]
               @ cancelSweep (sweepResp env) [upOrderID w, downOrderID w]"
proof -
  have ids: "orderIds w = [upOrderID w, downOrderID w]" if "placePair cfg env t = (evs0, Inr w)"
    for evs0 w
    using that
    by (auto simp: placePair_def andThen_def request_def emit_def Let_def
        split: sum.splits if_splits)
  show ?thesis
    using assms ids
    by (auto simp: runOneWindow_def split: prod.splits sum.splits loop_end.splits)
qed

text \<open>
  Claim C1, evaluated at the sample window (hedge policy, UP filled, the hedge order
  accepted with id \<open>H\<close>, the cancel of \<open>U\<close> failing): three orders are submitted in the
  window, the sweep attempts \<open>U\<close> and then \<open>D\<close> although the first cancel failed, and the
  hedge order \<open>H\<close> gets no cancel attempt, because only the two leg ids are pushed on
  \<open>orderIds\<close>.
\<close>

theorem hedge_order_left_out_of_sweep:
  "snd (runOneWindow sampleConfig sampleEnv 0) = Returned
   \<and> map tokenID (postedOrders (fst (runOneWindow sampleConfig sampleEnv 0))) = [''up'', ''down'', ''down'']
   \<and> Log (HedgePosted ''H'') \<in> set (fst (runOneWindow sampleConfig sampleEnv 0))
   \<and> cancelledIds (fst (runOneWindow sampleConfig sampleEnv 0)) = [''U'', ''D'']"
  by code_simp

end
